theory Spec2Isabelle
  imports Main "HOL-Library.AList"
begin

section \<open>Data model of the job orchestrator (src/utils/concurrent-crawler.js)\<close>

text \<open>
  The orchestrator is the class \<open>ConcurrentCrawler\<close> whose \<open>processJob\<close> keeps the map
  \<open>processedUrlsMap\<close> (the reconciling variant). URLs, cache keys, error messages and
  environment values are strings. Wall-clock fields (\<open>startTime\<close>, \<open>endTime\<close>, \<open>duration\<close>,
  \<open>timestamp\<close>) and the log output are left out: no operation below branches on them.
\<close>

type_synonym url = string

text \<open>
  The object built by \<open>processUrl\<close>: \<open>{url, success, metadata, content, timestamp}\<close> on
  success and \<open>{url, success: false, error, timestamp}\<close> on failure.
\<close>

record result =
  url :: url
  success :: bool
  metadata :: "string option"
  content :: "string option"
  error :: "string option"

datatype status = Pending | Processing | Completed | Failed | Cancelled

text \<open>
  \<open>job.config.webhook\<close>: \<open>hookUrl\<close> is its \<open>url\<close> field (absent or empty is falsy).
\<close>

record webhook =
  hookUrl :: "string option"
  progressUpdates :: bool

record config =
  sitemapUrl :: "string option"
  urls :: "url list option"
  batchSize :: nat
  maxConcurrent :: nat
  retryCount :: nat
  nocache :: bool
  targetSelectors :: "string list"
  removeSelectors :: "string list"
  webhook :: "webhook option"

text \<open>
  The job object. The counters \<open>job.success\<close> and \<open>job.failed\<close> and the field \<open>job.error\<close>
  share their names with fields of the result object and of the summary, so they are
  \<open>succeeded\<close>, \<open>failed\<close> and \<open>jobError\<close> here. \<open>processedUrlsMap\<close> is a JavaScript \<open>Map\<close>:
  an association list in insertion order, written with \<open>AList.update\<close> (an existing key
  keeps its place, a new key goes to the end) and read with \<open>map_of\<close>.
\<close>

record job =
  status :: status
  config :: config
  results :: "result list"
  total :: nat
  processed :: nat
  succeeded :: nat
  failed :: nat
  batches :: "url list list"
  currentBatch :: nat
  processedUrlsMap :: "(url \<times> result) list"
  jobError :: "string option"

text \<open>The \<open>summary\<close> object of the report file and of \<open>getJobStatus\<close>.\<close>

record summary =
  sum_total :: nat
  sum_processed :: nat
  sum_successful :: nat
  sum_failed :: nat
  sum_currentBatch :: nat
  sum_totalBatches :: nat

text \<open>The JSON written to \<open>crawl_reports/{jobId}.json\<close> and the object \<open>getJobStatus\<close> returns.\<close>

record report =
  rep_status :: status
  rep_summary :: summary
  rep_results :: "result list"
  rep_error :: "string option"

text \<open>What the driver sends or writes, in order.\<close>

datatype event =
  Persisted report
  | ProgressWebhook nat nat nat nat nat
  | FinalWebhook status summary "result list" "result list"

subsection \<open>saveJobState, getJobStatus, cancelJob\<close>

text \<open>
  \<open>saveJobState\<close> first overwrites \<open>job.total\<close> for a completed job whose total differs from
  its processed count, then writes the report. The write itself is inside a \<open>try\<close> whose
  handler only logs; the model returns the updated job and the report handed to
  \<open>fs.writeFile\<close>.
\<close>

definition summaryOf :: "job \<Rightarrow> summary" where
  "summaryOf j =
     \<lparr>sum_total = total j, sum_processed = processed j, sum_successful = succeeded j,
      sum_failed = failed j, sum_currentBatch = currentBatch j,
      sum_totalBatches = length (batches j)\<rparr>"

definition saveJobState :: "job \<Rightarrow> job \<times> report" where
  "saveJobState j =
     (let j1 = (if status j = Completed \<and> total j \<noteq> processed j
                then j\<lparr>total := processed j\<rparr> else j)
      in (j1, \<lparr>rep_status = status j1, rep_summary = summaryOf j1,
               rep_results = results j1, rep_error = jobError j1\<rparr>))"

text \<open>
  \<open>getJobStatus\<close> for a job held in memory: the summary is a copy, and for a completed job
  the copy's total is overwritten with the processed count (\<open>job.total\<close> itself is not
  touched). Results are only included for jobs of at most 50 processed URLs.
\<close>

definition getJobStatus :: "job \<Rightarrow> report" where
  "getJobStatus j =
     (let s = summaryOf j;
          s1 = (if status j = Completed \<and> sum_total s \<noteq> sum_processed s
                then s\<lparr>sum_total := sum_processed s\<rparr> else s)
      in \<lparr>rep_status = status j, rep_summary = s1,
          rep_results = (if processed j \<le> 50 then results j else []),
          rep_error = jobError j\<rparr>)"

text \<open>\<open>cancelJob\<close> on a job that exists: the status is overwritten, whatever it was.\<close>

definition cancelJob :: "job \<Rightarrow> job" where
  "cancelJob j = j\<lparr>status := Cancelled\<rparr>"

section \<open>The bounded worker group: processInBatches\<close>

text \<open>
  \<open>processInBatches(items, processFn, concurrencyLimit)\<close> launches one promise per item.
  JavaScript runs the \<open>for\<close> loop to its next \<open>await\<close> without interruption, so a launched
  task can only finish while the loop waits in \<open>Promise.race\<close> or, after the last launch,
  in \<open>Promise.all\<close>. A call of \<open>processFn\<close> is therefore split in two: \<open>bg\<close>, the part
  that runs at launch up to the first suspension and leaves a suspended computation, and
  \<open>fin\<close>, the rest, which runs when the task is resumed and either returns or throws.
  Both may read and change a state shared by all tasks.

  A value a task settles with: a truthy non-array value, a falsy value, an array, or the
  record \<open>{error, item}\<close> built by the \<open>catch\<close> block.
\<close>

datatype ('a, 'r) jsval = Val 'r | Falsy | Arr "('a, 'r) jsval list" | ErrorItem string 'a

datatype 'v outcome = Returns 'v | Throws string

text \<open>A launched task: its launch index, its item and its suspended computation.\<close>

type_synonym ('a, 'p) task = "nat \<times> 'a \<times> 'p"

text \<open>
  Which tasks finish during a wait is decided by the environment: a schedule maps the
  launch indices of the pending tasks to the indices of those that finish during the wait,
  in the order in which they finish.
\<close>

type_synonym sched = "nat list \<Rightarrow> nat list"

text \<open>
  The wrapper \<open>try { return await processFn(item) } catch (error) { return {error:
  error.message, item} }\<close>: a throwing task settles with the error record.
\<close>

definition settle ::
  "('p \<Rightarrow> 's \<Rightarrow> ('a, 'r) jsval outcome \<times> 's) \<Rightarrow> ('a, 'p) task \<Rightarrow> 's \<Rightarrow> ('a, 'r) jsval \<times> 's" where
  "settle fin t s =
     (case fin (snd (snd t)) s of
        (Returns v, s') \<Rightarrow> (v, s')
      | (Throws msg, s') \<Rightarrow> (ErrorItem msg (fst (snd t)), s'))"

fun settleAll ::
  "('p \<Rightarrow> 's \<Rightarrow> ('a, 'r) jsval outcome \<times> 's) \<Rightarrow> ('a, 'p) task list \<Rightarrow> 's
     \<Rightarrow> (nat \<times> ('a, 'r) jsval) list \<times> 's" where
  "settleAll fin [] s = ([], s)"
| "settleAll fin (t # ts) s =
     (let (v, s1) = settle fin t s; (vs, s2) = settleAll fin ts s1 in ((fst t, v) # vs, s2))"

text \<open>The pending tasks named by a schedule, each at most once, in the schedule's order.\<close>

fun pickTasks :: "nat list \<Rightarrow> ('a, 'p) task list \<Rightarrow> ('a, 'p) task list" where
  "pickTasks [] pend = []"
| "pickTasks (i # is) pend =
     (case find (\<lambda>t. fst t = i) pend of
        None \<Rightarrow> pickTasks is pend
      | Some t \<Rightarrow> t # pickTasks is (filter (\<lambda>t. fst t \<noteq> i) pend))"

text \<open>
  \<open>Promise.race\<close> resumes the loop once some pending task has finished, so at least one
  task finishes during the wait (the oldest one when the schedule names none); others may
  finish before the loop runs again. \<open>Promise.all\<close> waits for every pending task.
\<close>

definition raceDone :: "sched \<Rightarrow> ('a, 'p) task list \<Rightarrow> ('a, 'p) task list" where
  "raceDone sch pend =
     (let chosen = pickTasks (sch (map fst pend)) pend
      in if chosen = [] then take 1 pend else chosen)"

definition allDone :: "sched \<Rightarrow> ('a, 'p) task list \<Rightarrow> ('a, 'p) task list" where
  "allDone sch pend =
     (let chosen = pickTasks (sch (map fst pend)) pend
      in chosen @ filter (\<lambda>t. fst t \<notin> set (map fst chosen)) pend)"

text \<open>
  The \<open>for\<close> loop. \<open>pend\<close> is \<open>pendingPromises\<close> in insertion order, \<open>res\<close> is \<open>results\<close>
  (with the launch index of each value). Every task deletes itself from \<open>pendingPromises\<close>
  when it finishes; the loop pushes only the value \<open>Promise.race\<close> resolved with, which is
  the value of the task that finished first.
\<close>

fun pibLoop ::
  "('a \<Rightarrow> 's \<Rightarrow> 'p \<times> 's) \<Rightarrow> ('p \<Rightarrow> 's \<Rightarrow> ('a, 'r) jsval outcome \<times> 's) \<Rightarrow> sched \<Rightarrow> nat \<Rightarrow> nat
     \<Rightarrow> 'a list \<Rightarrow> ('a, 'p) task list \<Rightarrow> (nat \<times> ('a, 'r) jsval) list \<Rightarrow> 's
     \<Rightarrow> (nat \<times> ('a, 'r) jsval) list \<times> ('a, 'p) task list \<times> 's" where
  "pibLoop bg fin sch lim i [] pend res s = (res, pend, s)"
| "pibLoop bg fin sch lim i (x # xs) pend res s =
     (let (p, s1) = bg x s; pend1 = pend @ [(i, x, p)] in
      if lim \<le> length pend1 then
        (let done = raceDone sch pend1; (vs, s2) = settleAll fin done s1 in
         pibLoop bg fin sch lim (Suc i) xs
           (filter (\<lambda>t. fst t \<notin> set (map fst done)) pend1) (res @ take 1 vs) s2)
      else pibLoop bg fin sch lim (Suc i) xs pend1 res s1)"

text \<open>
  After the loop, \<open>Promise.all([...pendingPromises])\<close> yields the values of the tasks still
  pending in the order of the set, which is their launch order, whatever the order in
  which they finish. \<open>collected\<close> is \<open>results\<close> before the last line of the function.
\<close>

definition collected ::
  "('a \<Rightarrow> 's \<Rightarrow> 'p \<times> 's) \<Rightarrow> ('p \<Rightarrow> 's \<Rightarrow> ('a, 'r) jsval outcome \<times> 's) \<Rightarrow> sched \<Rightarrow> 'a list \<Rightarrow> nat
     \<Rightarrow> 's \<Rightarrow> (nat \<times> ('a, 'r) jsval) list \<times> 's" where
  "collected bg fin sch items lim s =
     (let (res, pend, s1) = pibLoop bg fin sch lim 0 items [] [] s;
          (vs, s2) = settleAll fin (allDone sch pend) s1;
          remaining = List.map_filter (\<lambda>t. map_option (Pair (fst t)) (map_of vs (fst t))) pend
      in (res @ remaining, s2))"

text \<open>\<open>results.flat().filter(Boolean)\<close>: arrays are spliced in one level deep, falsy values dropped.\<close>

definition flat :: "('a, 'r) jsval list \<Rightarrow> ('a, 'r) jsval list" where
  "flat vs = concat (map (\<lambda>v. case v of Arr ws \<Rightarrow> ws | _ \<Rightarrow> [v]) vs)"

definition truthy :: "('a, 'r) jsval \<Rightarrow> bool" where
  "truthy v = (v \<noteq> Falsy)"

definition processInBatches ::
  "('a \<Rightarrow> 's \<Rightarrow> 'p \<times> 's) \<Rightarrow> ('p \<Rightarrow> 's \<Rightarrow> ('a, 'r) jsval outcome \<times> 's) \<Rightarrow> sched \<Rightarrow> 'a list \<Rightarrow> nat
     \<Rightarrow> 's \<Rightarrow> ('a, 'r) jsval list \<times> 's" where
  "processInBatches bg fin sch items lim s =
     (let (raw, s1) = collected bg fin sch items lim s
      in (filter truthy (flat (map snd raw)), s1))"

text \<open>
  A processing function without shared state, as in the claim about the worker group:
  \<open>f\<close> gives what \<open>processFn\<close> does on an item. The state only records the order in which
  the tasks finish.
\<close>

definition pureBegin :: "'a \<Rightarrow> 'a list \<Rightarrow> 'a \<times> 'a list" where
  "pureBegin x done = (x, done)"

definition pureFinish ::
  "('a \<Rightarrow> ('a, 'r) jsval outcome) \<Rightarrow> 'a \<Rightarrow> 'a list \<Rightarrow> ('a, 'r) jsval outcome \<times> 'a list" where
  "pureFinish f x done = (f x, done @ [x])"


definition collectedPure ::
  "('a \<Rightarrow> ('a, 'r) jsval outcome) \<Rightarrow> sched \<Rightarrow> 'a list \<Rightarrow> nat \<Rightarrow> (nat \<times> ('a, 'r) jsval) list" where
  "collectedPure f sch items lim = fst (collected pureBegin (pureFinish f) sch items lim [])"

definition processInBatchesPure ::
  "('a \<Rightarrow> ('a, 'r) jsval outcome) \<Rightarrow> sched \<Rightarrow> 'a list \<Rightarrow> nat \<Rightarrow> ('a, 'r) jsval list" where
  "processInBatchesPure f sch items lim =
     fst (processInBatches pureBegin (pureFinish f) sch items lim [])"

definition finishOrder ::
  "('a \<Rightarrow> ('a, 'r) jsval outcome) \<Rightarrow> sched \<Rightarrow> 'a list \<Rightarrow> nat \<Rightarrow> 'a list" where
  "finishOrder f sch items lim = snd (processInBatches pureBegin (pureFinish f) sch items lim [])"




definition flaky :: "nat \<Rightarrow> (nat, nat) jsval outcome" where
  "flaky x = (if x = 2 then Throws ''boom'' else Returns (Val x))"


definition oldestOnly :: sched where
  "oldestOnly ids = take 1 ids"

definition together :: sched where
  "together ids = ids"

section \<open>The cache and processUrl\<close>

text \<open>
  The process environment read by the crawler, the module variables \<open>useRedis\<close>,
  \<open>redisClient\<close> (here: whether it is non-null) and \<open>redisInitialized\<close>, the shared store and
  the in-process \<open>resultsCache\<close>. The LRU cache is a map from keys to results; its capacity
  of 1000 entries and its time to live, which belong to the \<open>lru-cache\<close> package, are not
  modelled. \<open>redisUp\<close> says whether a command sent to the shared store succeeds; a failing
  command throws inside the \<open>try\<close> blocks of \<open>getCacheByKey\<close> and \<open>setCacheByKey\<close>.
  \<open>visits\<close> counts the page loads made so far and \<open>attempts\<close> logs each of them with the
  URL, the \<open>retryCount\<close> of the call and the error message it ended with, if any.
\<close>

record env =
  USE_REDIS :: "string option"
  DISABLE_ALL_CACHING :: "string option"
  EXTERNAL_REDIS_URL :: "string option"

record crawler =
  env :: env
  useRedis :: bool
  redisClient :: bool
  redisInitialized :: bool
  redisUp :: bool
  redis :: "string \<rightharpoonup> result"
  resultsCache :: "string \<rightharpoonup> result"
  visits :: nat
  attempts :: "(url \<times> nat \<times> string option) list"

text \<open>\<open>String.prototype.includes\<close> (\<open>includes_js\<close>, as \<open>includes\<close> is reserved) and
  \<open>toLowerCase\<close> (on the letters A to Z).\<close>

fun startsWith :: "'a list \<Rightarrow> 'a list \<Rightarrow> bool" where
  "startsWith s [] = True"
| "startsWith [] (p # ps) = False"
| "startsWith (c # cs) (p # ps) = (c = p \<and> startsWith cs ps)"

fun includes_js :: "'a list \<Rightarrow> 'a list \<Rightarrow> bool" where
  "includes_js [] pat = (pat = [])"
| "includes_js (c # cs) pat = (startsWith (c # cs) pat \<or> includes_js cs pat)"

definition lowerChar :: "char \<Rightarrow> char" where
  "lowerChar c =
     (let n = (of_char c :: nat) in if 65 \<le> n \<and> n \<le> 90 then char_of (n + 32) else c)"

definition toLowerCase :: "string \<Rightarrow> string" where
  "toLowerCase s = map lowerChar s"

text \<open>\<open>v || d\<close> on an environment variable: an unset or empty variable gives the default.\<close>

definition orDefault :: "string option \<Rightarrow> string \<Rightarrow> string" where
  "orDefault v d = (case v of None \<Rightarrow> d | Some s \<Rightarrow> if s = [] then d else s)"

definition redisMode :: "crawler \<Rightarrow> string" where
  "redisMode w = orDefault (USE_REDIS (env w)) ''none''"

definition modeIsNone :: "crawler \<Rightarrow> bool" where
  "modeIsNone w = (redisMode w = ''none'' \<or> toLowerCase (redisMode w) = ''none'')"

text \<open>
  \<open>initRedis\<close>. Loading the \<open>ioredis\<close> module and connecting to the server are outside the
  program: \<open>loads\<close> says whether \<open>require('ioredis')\<close> succeeds, \<open>probe\<close> whether the
  connection is made and the \<open>set\<close>/\<open>get\<close> round trip returns \<open>working\<close> within ten
  seconds. Every failure falls back to the LRU cache.
\<close>

definition fallBack :: "crawler \<Rightarrow> crawler" where
  "fallBack w = w\<lparr>useRedis := False, redisClient := False, redisInitialized := True\<rparr>"

definition connect :: "bool \<Rightarrow> crawler \<Rightarrow> crawler" where
  "connect probe w =
     (if probe then w\<lparr>useRedis := True, redisClient := True, redisInitialized := True\<rparr>
      else fallBack w)"

definition initRedis :: "bool \<Rightarrow> bool \<Rightarrow> crawler \<Rightarrow> crawler" where
  "initRedis loads probe w =
     (if redisInitialized w then w
      else if modeIsNone w then
        fallBack (w\<lparr>env := (env w)\<lparr>DISABLE_ALL_CACHING :=
          (if DISABLE_ALL_CACHING (env w) \<noteq> Some ''false'' then Some ''true''
           else DISABLE_ALL_CACHING (env w))\<rparr>\<rparr>)
      else if \<not> loads then fallBack w
      else if redisMode w = ''internal'' then connect probe w
      else if redisMode w = ''external'' then
        (if orDefault (EXTERNAL_REDIS_URL (env w)) [] = [] then fallBack w else connect probe w)
      else fallBack w)"

definition isRedisEnabled :: "crawler \<Rightarrow> bool" where
  "isRedisEnabled w = (if modeIsNone w then False else useRedis w \<and> redisClient w)"

definition cachingDisabled :: "crawler \<Rightarrow> bool" where
  "cachingDisabled w = (DISABLE_ALL_CACHING (env w) = Some ''true'')"

definition getCacheByKey :: "string \<Rightarrow> crawler \<Rightarrow> result option" where
  "getCacheByKey key w =
     (if cachingDisabled w then None
      else if isRedisEnabled w then (if redisUp w then redis w key else None)
      else resultsCache w key)"

definition setCacheByKey :: "string \<Rightarrow> result \<Rightarrow> bool \<Rightarrow> crawler \<Rightarrow> bool \<times> crawler" where
  "setCacheByKey key data bypassCache w =
     (if cachingDisabled w \<or> bypassCache then (False, w)
      else if isRedisEnabled w then
        (if redisUp w then (True, w\<lparr>redis := (redis w)(key \<mapsto> data)\<rparr>) else (False, w))
      else (True, w\<lparr>resultsCache := (resultsCache w)(key \<mapsto> data)\<rparr>))"

text \<open>
  \<open>createCacheKey\<close>: \<open>JSON.stringify\<close> of a list of selectors quotes each string, escaping
  the quote and the backslash (control characters, which JSON also escapes, are taken not
  to occur in selectors).
\<close>

definition jsonString :: "string \<Rightarrow> string" where
  "jsonString s =
     ''\"'' @ concat (map (\<lambda>c. if c = CHR ''\"'' \<or> c = CHR 0x5C then [CHR 0x5C, c] else [c]) s) @ ''\"''"

fun commaJoin :: "string list \<Rightarrow> string" where
  "commaJoin [] = []"
| "commaJoin [s] = s"
| "commaJoin (s # t # ts) = s @ '','' @ commaJoin (t # ts)"

definition stringify :: "string list \<Rightarrow> string" where
  "stringify ss = ''['' @ commaJoin (map jsonString ss) @ '']''"

definition createCacheKey :: "url \<Rightarrow> string list \<Rightarrow> string list \<Rightarrow> string" where
  "createCacheKey u ts rs = ''sf4ai:'' @ u @ ''-'' @ stringify ts @ ''-'' @ stringify rs"



definition successResult :: "url \<Rightarrow> string \<Rightarrow> string \<Rightarrow> result" where
  "successResult u md markdown =
     \<lparr>url = u, success = True, metadata = Some md, content = Some markdown, error = None\<rparr>"


definition pageLoad :: "url \<Rightarrow> nat \<Rightarrow> string option \<Rightarrow> crawler \<Rightarrow> crawler" where
  "pageLoad u rc e w = w\<lparr>visits := Suc (visits w), attempts := attempts w @ [(u, rc, e)]\<rparr>"



text \<open>The cache lookup at the head of \<open>processUrl\<close>, and what a retry log must look like.\<close>

definition cacheLookup :: "config \<Rightarrow> url \<Rightarrow> crawler \<Rightarrow> result option" where
  "cacheLookup cfg u w =
     (if nocache cfg then None
      else getCacheByKey (createCacheKey u (targetSelectors cfg) (removeSelectors cfg)) w)"


text \<open>
  Concrete processes and collaborators. \<open>freshProcess\<close> is the crawler at start-up with
  no environment variable set; \<open>noneMode\<close> has \<open>USE_REDIS=none\<close> and the master switch
  unset, \<open>noneModeLru\<close> has \<open>DISABLE_ALL_CACHING=false\<close> in addition. \<open>alwaysReset\<close> is a
  site on which every page load fails with a connection reset.
\<close>

definition freshProcess :: crawler where
  "freshProcess =
     \<lparr>env = \<lparr>USE_REDIS = None, DISABLE_ALL_CACHING = None, EXTERNAL_REDIS_URL = None\<rparr>,
      useRedis = False, redisClient = False, redisInitialized = False, redisUp = True,
      redis = Map.empty, resultsCache = Map.empty, visits = 0, attempts = []\<rparr>"

definition noneMode :: crawler where
  "noneMode = freshProcess\<lparr>env :=
     \<lparr>USE_REDIS = Some ''none'', DISABLE_ALL_CACHING = None, EXTERNAL_REDIS_URL = None\<rparr>\<rparr>"

definition noneModeLru :: crawler where
  "noneModeLru = freshProcess\<lparr>env :=
     \<lparr>USE_REDIS = Some ''none'', DISABLE_ALL_CACHING = Some ''false'',
      EXTERNAL_REDIS_URL = None\<rparr>\<rparr>"

definition somePage :: result where
  "somePage = successResult ''https://a.test/'' ''Title: A'' ''# A''"


definition plainConfig :: config where
  "plainConfig =
     \<lparr>sitemapUrl = None, urls = None, batchSize = 10, maxConcurrent = 5, retryCount = 2,
      nocache = True, targetSelectors = [], removeSelectors = [], webhook = None\<rparr>"

section \<open>The job driver: createJob and processJob\<close>

text \<open>
  \<open>createJob\<close> builds the job object; \<open>config\<close> is \<open>job.config\<close>, after the defaults have
  been filled in.
\<close>

definition createJob :: "config \<Rightarrow> job" where
  "createJob cfg =
     \<lparr>status = Pending, config = cfg, results = [], total = 0, processed = 0, succeeded = 0,
      failed = 0, batches = [], currentBatch = 0, processedUrlsMap = [], jobError = None\<rparr>"

text \<open>A string property is truthy when it is present and not empty.\<close>

definition truthyStr :: "string option \<Rightarrow> bool" where
  "truthyStr v = (case v of None \<Rightarrow> False | Some s \<Rightarrow> s \<noteq> [])"

text \<open>
  The source of URLs. \<open>fetchSitemapUrls\<close> talks to the network and to the XML parser, so it
  is a parameter: \<open>fetch s\<close> is the list of valid URLs found under the sitemap \<open>s\<close>, or the
  message of the error it throws.
\<close>

definition enumerateUrls :: "(string \<Rightarrow> string + url list) \<Rightarrow> config \<Rightarrow> string + url list" where
  "enumerateUrls fetch cfg =
     (let fromList = (case urls cfg of Some us \<Rightarrow> Inr us | None \<Rightarrow> Inr [])
      in case sitemapUrl cfg of
           None \<Rightarrow> fromList
         | Some s \<Rightarrow> if s = [] then fromList else fetch s)"

text \<open>
  \<open>for (let i = 0; i < urls.length; i += batchSize) job.batches.push(urls.slice(i, i +
  batchSize))\<close>. With a batch size of zero the loop never ends, which is the value \<open>None\<close>.
\<close>

partial_function (option) splitFrom ::
  "nat \<Rightarrow> nat \<Rightarrow> url list \<Rightarrow> url list list \<Rightarrow> url list list option" where
  "splitFrom n i us acc =
     (if i < length us then splitFrom n (i + n) us (acc @ [take n (drop i us)]) else Some acc)"

declare splitFrom.simps [code]

text \<open>
  The \<open>processFn\<close> handed to the worker group. At launch it looks the URL up in
  \<open>processedUrlsMap\<close>: a URL that is present is skipped and its stored result returned;
  otherwise \<open>processUrl\<close> is started, and when it has returned the result is stored under
  the URL. \<open>pu\<close> stands for \<open>processUrl(url, job)\<close> acting on the rest of the process state.
\<close>

datatype token = Skip result | Fresh url

definition jobBegin :: "url \<Rightarrow> (url \<times> result) list \<times> 'w \<Rightarrow> token \<times> (url \<times> result) list \<times> 'w" where
  "jobBegin u s =
     (case map_of (fst s) u of Some r \<Rightarrow> (Skip r, s) | None \<Rightarrow> (Fresh u, s))"

definition jobFinish ::
  "(url \<Rightarrow> 'w \<Rightarrow> result \<times> 'w) \<Rightarrow> token \<Rightarrow> (url \<times> result) list \<times> 'w
     \<Rightarrow> (url, result) jsval outcome \<times> (url \<times> result) list \<times> 'w" where
  "jobFinish pu p s =
     (case p of
        Skip r \<Rightarrow> (Returns (Val r), s)
      | Fresh u \<Rightarrow>
          (let (r, w1) = pu u (snd s) in (Returns (Val r), (AList.update u r (fst s), w1))))"

text \<open>The counts are recomputed from the map after every batch and at the end.\<close>

definition recount :: "job \<Rightarrow> job" where
  "recount j =
     j\<lparr>processed := length (processedUrlsMap j),
       succeeded := length (filter success (map snd (processedUrlsMap j))),
       failed := length (filter (\<lambda>r. \<not> success r) (map snd (processedUrlsMap j)))\<rparr>"

text \<open>
  \<open>cancelJob\<close> is called from a request handler, so it can only run while the driver is
  suspended: during the sitemap download (\<open>early\<close>), while batch \<open>k\<close> is being processed
  (\<open>inBatch k\<close>), during the report write, the progress webhook or the pause after batch
  \<open>k\<close> (\<open>afterSave k\<close>), and during the last report write (\<open>late\<close>).
\<close>

record cancels =
  early :: bool
  inBatch :: "nat \<Rightarrow> bool"
  afterSave :: "nat \<Rightarrow> bool"
  late :: bool

definition progressEvents :: "job \<Rightarrow> nat \<Rightarrow> event list" where
  "progressEvents j k =
     (case webhook (config j) of
        None \<Rightarrow> []
      | Some h \<Rightarrow>
          if progressUpdates h \<and> truthyStr (hookUrl h)
          then [ProgressWebhook (processed j) (total j) (succeeded j) (failed j) (k + 1)]
          else [])"

definition finalEvents :: "job \<Rightarrow> event list" where
  "finalEvents j =
     (case webhook (config j) of
        None \<Rightarrow> []
      | Some h \<Rightarrow>
          if truthyStr (hookUrl h)
          then [FinalWebhook (status j) (summaryOf j) (filter success (results j))
                  (filter (\<lambda>r. \<not> success r) (results j))]
          else [])"

text \<open>
  The loop over \<open>job.batches\<close>; \<open>k\<close> is \<open>batchIndex\<close>. \<open>batchStep\<close> is the loop body after
  the cancellation check: run the batch, copy the map into \<open>job.results\<close>, recount, save,
  send the progress webhook.
\<close>

definition batchStep ::
  "(url \<Rightarrow> 'w \<Rightarrow> result \<times> 'w) \<Rightarrow> sched \<Rightarrow> cancels \<Rightarrow> nat \<Rightarrow> url list \<Rightarrow> job \<Rightarrow> 'w
     \<Rightarrow> event list \<Rightarrow> job \<times> 'w \<times> event list" where
  "batchStep pu sch cs k b j1 w evs =
     (let (vals, m, w1) =
            processInBatches jobBegin (jobFinish pu) sch b (maxConcurrent (config j1))
              (processedUrlsMap j1, w);
          j2 = (if inBatch cs k then cancelJob j1 else j1);
          j3 = recount (j2\<lparr>processedUrlsMap := m, results := map snd m\<rparr>);
          (j4, rep) = saveJobState j3;
          evs1 = evs @ [Persisted rep] @ progressEvents j4 k;
          j5 = (if afterSave cs k then cancelJob j4 else j4)
      in (j5, w1, evs1))"

fun batchLoop ::
  "(url \<Rightarrow> 'w \<Rightarrow> result \<times> 'w) \<Rightarrow> sched \<Rightarrow> cancels \<Rightarrow> nat \<Rightarrow> url list list \<Rightarrow> job \<Rightarrow> 'w
     \<Rightarrow> event list \<Rightarrow> job \<times> 'w \<times> event list" where
  "batchLoop pu sch cs k [] j w evs = (j, w, evs)"
| "batchLoop pu sch cs k (b # bs) j w evs =
     (let j1 = j\<lparr>currentBatch := k + 1\<rparr> in
      if status j1 = Cancelled then (j1, w, evs)
      else
        (let (j5, w1, evs1) = batchStep pu sch cs k b j1 w evs
         in batchLoop pu sch cs (k + 1) bs j5 w1 evs1))"

text \<open>
  The end of \<open>processJob\<close>. \<open>uniq\<close> is the iteration order of \<open>new Set(urls)\<close>: each URL once,
  at its first position.
\<close>

fun uniq :: "'a list \<Rightarrow> 'a list" where
  "uniq [] = []"
| "uniq (x # xs) = x # filter (\<lambda>y. y \<noteq> x) (uniq xs)"

definition skipped :: "url \<Rightarrow> result" where
  "skipped u =
     \<lparr>url = u, success = False, metadata = None, content = None,
      error = Some ''URL was skipped during processing''\<rparr>"

definition missingUrls :: "url list \<Rightarrow> job \<Rightarrow> url list" where
  "missingUrls us j = filter (\<lambda>u. u \<notin> set (map url (results j))) (uniq us)"

definition addSkipped :: "url \<Rightarrow> job \<Rightarrow> job" where
  "addSkipped u j =
     j\<lparr>results := results j @ [skipped u],
       processedUrlsMap := AList.update u (skipped u) (processedUrlsMap j),
       failed := failed j + 1\<rparr>"

definition finalize :: "url list \<Rightarrow> cancels \<Rightarrow> job \<Rightarrow> event list \<Rightarrow> job \<times> event list" where
  "finalize us cs j evs =
     (let j1 = j\<lparr>status := Completed\<rparr>;
          j2 = (if succeeded j1 + failed j1 \<noteq> total j1
                then fold addSkipped (missingUrls us j1) j1 else j1);
          j3 = recount j2;
          (j4, rep) = saveJobState j3;
          j5 = (if late cs then cancelJob j4 else j4)
      in (j5, evs @ [Persisted rep] @ finalEvents j5))"

text \<open>The \<open>catch\<close> block of \<open>processJob\<close>.\<close>

definition failJob :: "string \<Rightarrow> job \<Rightarrow> job \<times> event list" where
  "failJob msg j =
     (let (j1, rep) = saveJobState (j\<lparr>status := Failed, jobError := Some msg\<rparr>)
      in (j1, [Persisted rep]))"

text \<open>
  \<open>prepareJob\<close> is \<open>processJob\<close> up to the batch loop: the URLs are enumerated, \<open>job.total\<close>
  is set to their number, the map and the results are cleared and the batches are cut.
  It yields the error message when the source throws or gives no URL.
\<close>

definition prepareJob ::
  "(string \<Rightarrow> string + url list) \<Rightarrow> cancels \<Rightarrow> job \<Rightarrow> (string + url list \<times> job) option" where
  "prepareJob fetch cs j =
     (let j0 = j\<lparr>status := Processing\<rparr> in
      case enumerateUrls fetch (config j0) of
        Inl msg \<Rightarrow> Some (Inl msg)
      | Inr us \<Rightarrow>
          if us = [] then Some (Inl ''No valid URLs found'')
          else
            (let j1 = (if truthyStr (sitemapUrl (config j0)) \<and> early cs then cancelJob j0 else j0)
             in case splitFrom (batchSize (config j1)) 0 us [] of
                  None \<Rightarrow> None
                | Some bs \<Rightarrow>
                    Some (Inr (us, j1\<lparr>total := length us, results := [],
                                      processedUrlsMap := [], batches := bs\<rparr>))))"

definition processJob ::
  "(url \<Rightarrow> 'w \<Rightarrow> result \<times> 'w) \<Rightarrow> (string \<Rightarrow> string + url list) \<Rightarrow> sched \<Rightarrow> cancels \<Rightarrow> job \<Rightarrow> 'w
     \<Rightarrow> (job \<times> event list \<times> 'w) option" where
  "processJob pu fetch sch cs j w =
     (case prepareJob fetch cs j of
        None \<Rightarrow> None
      | Some (Inl msg) \<Rightarrow>
          (let (j1, evs) = failJob msg (j\<lparr>status := Processing\<rparr>) in Some (j1, evs, w))
      | Some (Inr (us, j1)) \<Rightarrow>
          (let (j2, w1, evs) = batchLoop pu sch cs 0 (batches j1) j1 w [];
               (j3, evs1) = finalize us cs j2 evs
           in Some (j3, evs1, w1)))"

text \<open>
  Concrete jobs. \<open>visitOk\<close> converts every URL and logs the call; \<open>twoUrls\<close> is a job of
  two URLs in batches of one with a webhook; \<open>cancelFirst\<close> is a call of \<open>cancelJob\<close> while
  the first batch is being processed; \<open>sameTwice\<close> lists one URL twice.
\<close>

definition visitOk :: "url \<Rightarrow> url list \<Rightarrow> result \<times> url list" where
  "visitOk u calls = (successResult u ''Title: page'' ''# page'', calls @ [u])"

definition noSitemap :: "string \<Rightarrow> string + url list" where
  "noSitemap s = Inl ''Request failed with status code 404''"

definition hook :: webhook where
  "hook = \<lparr>hookUrl = Some ''https://hooks.test/done'', progressUpdates = False\<rparr>"

definition twoUrls :: config where
  "twoUrls = plainConfig\<lparr>urls := Some [''https://a.test/1'', ''https://a.test/2''],
                          batchSize := 1, webhook := Some hook\<rparr>"

definition sameTwice :: config where
  "sameTwice = plainConfig\<lparr>urls := Some [''https://a.test/1'', ''https://a.test/1'']\<rparr>"

definition noCancel :: cancels where
  "noCancel = \<lparr>early = False, inBatch = (\<lambda>k. False), afterSave = (\<lambda>k. False), late = False\<rparr>"

definition cancelFirst :: cancels where
  "cancelFirst = \<lparr>early = False, inBatch = (\<lambda>k. k = 0), afterSave = (\<lambda>k. False), late = False\<rparr>"

section \<open>Notions used in the statements and proofs about the job driver\<close>




definition jobInv :: "((url \<times> result) list \<Rightarrow> bool) \<Rightarrow> nat \<Rightarrow> job \<Rightarrow> bool" where
  "jobInv P n j \<longleftrightarrow>
     P (processedUrlsMap j)
   \<and> results j = map snd (processedUrlsMap j)
   \<and> (status j = Processing \<or> status j = Cancelled)
   \<and> total j = n
   \<and> processed j = length (processedUrlsMap j)
   \<and> succeeded j + failed j = length (processedUrlsMap j)"

definition midRun :: "event \<Rightarrow> bool" where
  "midRun e =
     (case e of
        Persisted rep \<Rightarrow> rep_status rep = Processing \<or> rep_status rep = Cancelled
      | ProgressWebhook a b c d k \<Rightarrow> True
      | FinalWebhook st s ok bad \<Rightarrow> False)"


definition countClosure :: "summary \<Rightarrow> bool" where
  "countClosure s \<longleftrightarrow> sum_total s = sum_processed s \<and> sum_processed s = sum_successful s + sum_failed s"

definition closedRun :: "job \<Rightarrow> event list \<Rightarrow> bool" where
  "closedRun j evs \<longleftrightarrow>
     (status j = Completed \<or> status j = Failed \<or> status j = Cancelled)
   \<and> countClosure (rep_summary (getJobStatus j))
   \<and> length (processedUrlsMap j) = sum_total (rep_summary (getJobStatus j))
   \<and> (\<forall>rep. Persisted rep \<in> set evs \<and> (rep_status rep = Completed \<or> rep_status rep = Failed)
         \<longrightarrow> countClosure (rep_summary rep)
             \<and> sum_total (rep_summary rep) = length (processedUrlsMap j))
   \<and> (\<forall>st s ok bad. FinalWebhook st s ok bad \<in> set evs
         \<longrightarrow> countClosure s \<and> sum_total s = length (processedUrlsMap j))"

fun persistedReports :: "event list \<Rightarrow> (status \<times> nat \<times> nat \<times> nat \<times> nat) list" where
  "persistedReports [] = []"
| "persistedReports (Persisted rep # evs) =
     (rep_status rep, sum_total (rep_summary rep), sum_processed (rep_summary rep),
      sum_successful (rep_summary rep), sum_failed (rep_summary rep)) # persistedReports evs"
| "persistedReports (e # evs) = persistedReports evs"

fun finalWebhooks :: "event list \<Rightarrow> status list" where
  "finalWebhooks [] = []"
| "finalWebhooks (FinalWebhook st s ok bad # evs) = st # finalWebhooks evs"
| "finalWebhooks (e # evs) = finalWebhooks evs"

definition observed ::
  "(job \<times> event list \<times> url list) option
     \<Rightarrow> (status \<times> (status \<times> nat \<times> nat \<times> nat \<times> nat) list \<times> status list \<times> url list) option" where
  "observed run =
     map_option (\<lambda>(j, evs, calls). (status j, persistedReports evs, finalWebhooks evs, calls)) run"

text \<open>
  What a run shows from outside: the final status, the persisted summaries in order (status,
  total, processed, successful, failed), the status carried by each final webhook, and the
  calls of \<open>processUrl\<close> that \<open>visitOk\<close> logged. \<open>sourceCounts\<close> gives \<open>job.total\<close> before the
  first batch with the number of enumerated URLs and the number of distinct ones.
  \<open>overcounted\<close> is the job of \<open>sameTwice\<close> as it stands just before the last
  \<open>saveJobState\<close>: completed, two URLs enumerated, one map entry.
\<close>

definition sourceCounts ::
  "(string \<Rightarrow> string + url list) \<Rightarrow> cancels \<Rightarrow> config \<Rightarrow> (nat \<times> nat \<times> nat) option" where
  "sourceCounts fetch cs cfg =
     (case prepareJob fetch cs (createJob cfg) of
        Some (Inr (us, j)) \<Rightarrow> Some (total j, length us, card (set us))
      | _ \<Rightarrow> None)"


definition overcounted :: job where
  "overcounted =
     (createJob sameTwice)
       \<lparr>status := Completed, total := 2, processed := 1, succeeded := 1,
        batches := [[''https://a.test/1'', ''https://a.test/1'']], currentBatch := 1,
        results := [successResult ''https://a.test/1'' ''Title: page'' ''# page''],
        processedUrlsMap :=
          [(''https://a.test/1'', successResult ''https://a.test/1'' ''Title: page'' ''# page'')]\<rparr>"

section \<open>The Markdown converter (src/utils/converter.js)\<close>

text \<open>
  HTML and Markdown are JavaScript strings, sequences of UTF-16 code units; a code unit is
  modelled by its number, as the line terminators of a regular expression include U+2028
  and U+2029. \<open>js\<close> turns a literal of the theory into such a string.
\<close>

type_synonym jsstring = "nat list"

definition js :: "string \<Rightarrow> jsstring" where
  "js s = map of_char s"

definition pipe :: nat where
  "pipe = 124"

definition LF :: nat where
  "LF = 10"

definition backtick :: nat where
  "backtick = 96"

definition backslash :: nat where
  "backslash = 92"

text \<open>The characters that \<open>.\<close> does not match and at which \<open>^\<close> and \<open>$\<close> match under the flag \<open>m\<close>.\<close>

definition lineTerminator :: "nat \<Rightarrow> bool" where
  "lineTerminator c = (c = 10 \<or> c = 13 \<or> c = 8232 \<or> c = 8233)"

text \<open>\<open>\w\<close> and \<open>\s\<close> without the Unicode flag.\<close>

definition wordChar :: "nat \<Rightarrow> bool" where
  "wordChar c = ((48 \<le> c \<and> c \<le> 57) \<or> (65 \<le> c \<and> c \<le> 90) \<or> c = 95 \<or> (97 \<le> c \<and> c \<le> 122))"

definition whiteSpace :: "nat \<Rightarrow> bool" where
  "whiteSpace c =
     ((9 \<le> c \<and> c \<le> 13) \<or> c = 32 \<or> c = 160 \<or> c = 5760 \<or> (8192 \<le> c \<and> c \<le> 8202)
      \<or> c = 8232 \<or> c = 8233 \<or> c = 8239 \<or> c = 8287 \<or> c = 12288 \<or> c = 65279)"

text \<open>
  \<open>s.replace(/^.*\|.*$/gm, '')\<close>: a match starts at the beginning of a line and, the two
  \<open>.*\<close> being greedy, runs to its end; it exists exactly when the line holds a pipe. So
  every line with a pipe is emptied and the line terminators stay.
\<close>

function removePipeLines :: "jsstring \<Rightarrow> jsstring" where
  "removePipeLines s =
     (let line = takeWhile (\<lambda>c. \<not> lineTerminator c) s;
          rest = dropWhile (\<lambda>c. \<not> lineTerminator c) s;
          kept = (if pipe \<in> set line then [] else line)
      in case rest of [] \<Rightarrow> kept | t # tail \<Rightarrow> kept @ t # removePipeLines tail)"
  by pat_completeness auto
termination
proof (relation "measure length")
  show "wf (measure length)" by simp
next
  fix s :: jsstring and line rest kept t tail
  assume "rest = dropWhile (\<lambda>c. \<not> lineTerminator c) s" and "rest = t # tail"
  then have "length (t # tail) \<le> length s"
    using length_dropWhile_le [of "\<lambda>c. \<not> lineTerminator c" s] by simp
  then show "(tail, s) \<in> measure length" by simp
qed

declare removePipeLines.simps [simp del]

text \<open>
  \<open>s.replace(/\|[\s\S]*?\|/g, '')\<close>: from a pipe to the next pipe, across lines.
\<close>

function removePipePairs :: "jsstring \<Rightarrow> jsstring" where
  "removePipePairs [] = []"
| "removePipePairs (c # cs) =
     (if c = pipe \<and> pipe \<in> set cs
      then removePipePairs (tl (dropWhile (\<lambda>d. d \<noteq> pipe) cs))
      else c # removePipePairs cs)"
  by pat_completeness auto
termination
proof (relation "measure length")
  show "wf (measure length)" by simp
next
  fix c :: nat and cs :: jsstring
  have "length (tl (dropWhile (\<lambda>d. d \<noteq> pipe) cs)) \<le> length cs"
    using length_dropWhile_le [of "\<lambda>d. d \<noteq> pipe" cs] by simp
  then show "(tl (dropWhile (\<lambda>d. d \<noteq> pipe) cs), c # cs) \<in> measure length" by simp
next
  fix c :: nat and cs :: jsstring
  show "(cs, c # cs) \<in> measure length" by simp
qed

text \<open>\<open>s.replace(/\\([_\\`'])/g, '$1')\<close>: a backslash before one of the four characters is dropped.\<close>

fun unescape :: "jsstring \<Rightarrow> jsstring" where
  "unescape (c # d # cs) =
     (if c = backslash \<and> (d = 95 \<or> d = backslash \<or> d = backtick \<or> d = 39)
      then d # unescape cs else c # unescape (d # cs))"
| "unescape cs = cs"

definition prePass :: "jsstring \<Rightarrow> jsstring" where
  "prePass html = (if html = [] then html else unescape (removePipePairs (removePipeLines html)))"

text \<open>
  The \<open>tables\<close> rule added to the Turndown service: \<open>rows\<close> is \<open>node.rows.length\<close>,
  \<open>inner\<close> (the argument \<open>content\<close>) the Markdown the GFM plug-in made of the rows. The result of a dropped table
  is two line feeds.
\<close>

definition tablesRule :: "nat \<Rightarrow> jsstring \<Rightarrow> jsstring" where
  "tablesRule rows inner =
     (if 20 < rows \<or> includes_js inner (js ''|---'') then [LF, LF] else inner)"

text \<open>
  The passes over the Markdown. \<open>/\n{3,}/g\<close> to two line feeds; an opening fence
  \<open>/`{3,}(\w*)\n\n+/g\<close> to three backticks, the word and one line feed; a closing fence
  \<open>/\n\n+`{3,}/g\<close> to a line feed and three backticks; an escaped link
  \<open>/\\\[(.*?)\\\]\((.*?)\)/g\<close> to a plain one. Each scans from the left; where the pattern
  does not match, the character is copied and the scan moves one character on.
\<close>

function collapseNewlines :: "jsstring \<Rightarrow> jsstring" where
  "collapseNewlines [] = []"
| "collapseNewlines (c # cs) =
     (if c = LF
      then (let run = takeWhile (\<lambda>d. d = LF) cs; rest = dropWhile (\<lambda>d. d = LF) cs
            in (if 2 \<le> length run then [LF, LF] else c # run) @ collapseNewlines rest)
      else c # collapseNewlines cs)"
  by pat_completeness auto
termination
proof (relation "measure length")
  show "wf (measure length)" by simp
next
  fix c :: nat and cs run rest :: jsstring
  assume "rest = dropWhile (\<lambda>d. d = LF) cs"
  then have "length rest \<le> length cs"
    using length_dropWhile_le [of "\<lambda>d. d = LF" cs] by simp
  then show "(rest, c # cs) \<in> measure length" by simp
next
  fix c :: nat and cs :: jsstring
  show "(cs, c # cs) \<in> measure length" by simp
qed

function fenceOpen :: "jsstring \<Rightarrow> jsstring" where
  "fenceOpen [] = []"
| "fenceOpen (c # cs) =
     (let ticks = takeWhile (\<lambda>d. d = backtick) (c # cs);
          after = dropWhile (\<lambda>d. d = backtick) (c # cs);
          word = takeWhile wordChar after;
          after2 = dropWhile wordChar after;
          feeds = takeWhile (\<lambda>d. d = LF) after2;
          rest = dropWhile (\<lambda>d. d = LF) after2
      in if 3 \<le> length ticks \<and> 2 \<le> length feeds
         then [backtick, backtick, backtick] @ word @ LF # fenceOpen rest
         else c # fenceOpen cs)"
  by pat_completeness auto
termination
proof (relation "measure length")
  show "wf (measure length)" by simp
next
  fix c :: nat and cs ticks after word after2 feeds rest :: jsstring
  assume a: "after = dropWhile (\<lambda>d. d = backtick) (c # cs)"
    and b: "after2 = dropWhile wordChar after"
    and r: "rest = dropWhile (\<lambda>d. d = LF) after2"
    and f: "feeds = takeWhile (\<lambda>d. d = LF) after2"
    and g: "3 \<le> length ticks \<and> 2 \<le> length feeds"
  have "length feeds + length rest = length after2"
    using f r by (metis length_append takeWhile_dropWhile_id)
  then have "length rest < length after2" using g by simp
  moreover have "length after2 \<le> length after"
    using b length_dropWhile_le [of wordChar after] by simp
  moreover have "length after \<le> length (c # cs)"
    using a length_dropWhile_le [of "\<lambda>d. d = backtick" "c # cs"] by simp
  ultimately show "(rest, c # cs) \<in> measure length" by simp
next
  fix c :: nat and cs :: jsstring
  show "(cs, c # cs) \<in> measure length" by simp
qed

function fenceClose :: "jsstring \<Rightarrow> jsstring" where
  "fenceClose [] = []"
| "fenceClose (c # cs) =
     (let feeds = takeWhile (\<lambda>d. d = LF) (c # cs);
          after = dropWhile (\<lambda>d. d = LF) (c # cs);
          ticks = takeWhile (\<lambda>d. d = backtick) after;
          rest = dropWhile (\<lambda>d. d = backtick) after
      in if 2 \<le> length feeds \<and> 3 \<le> length ticks
         then LF # [backtick, backtick, backtick] @ fenceClose rest
         else c # fenceClose cs)"
  by pat_completeness auto
termination
proof (relation "measure length")
  show "wf (measure length)" by simp
next
  fix c :: nat and cs feeds after ticks rest :: jsstring
  assume a: "after = dropWhile (\<lambda>d. d = LF) (c # cs)"
    and r: "rest = dropWhile (\<lambda>d. d = backtick) after"
    and t: "ticks = takeWhile (\<lambda>d. d = backtick) after"
    and g: "2 \<le> length feeds \<and> 3 \<le> length ticks"
  have "length ticks + length rest = length after"
    using t r by (metis length_append takeWhile_dropWhile_id)
  then have "length rest < length after" using g by simp
  moreover have "length after \<le> length (c # cs)"
    using a length_dropWhile_le [of "\<lambda>d. d = LF" "c # cs"] by simp
  ultimately show "(rest, c # cs) \<in> measure length" by simp
next
  fix c :: nat and cs :: jsstring
  show "(cs, c # cs) \<in> measure length" by simp
qed

text \<open>
  \<open>splitAt pat s\<close> cuts \<open>s\<close> at the first occurrence of \<open>pat\<close> on the current line: the part
  before it and the part after it.
\<close>

fun splitAt :: "jsstring \<Rightarrow> jsstring \<Rightarrow> (jsstring \<times> jsstring) option" where
  "splitAt pat [] = (if pat = [] then Some ([], []) else None)"
| "splitAt pat (c # cs) =
     (if startsWith (c # cs) pat then Some ([], drop (length pat) (c # cs))
      else if lineTerminator c then None
      else map_option (\<lambda>(before, after). (c # before, after)) (splitAt pat cs))"

lemma splitAt_shorter:
  "splitAt pat s = Some (before, after) \<Longrightarrow> length after \<le> length s"
proof (induction s arbitrary: before)
  case Nil
  then show ?case by (simp split: if_splits)
next
  case (Cons c cs)
  show ?case
  proof (cases "startsWith (c # cs) pat")
    case True
    then show ?thesis using Cons.prems by auto
  next
    case False
    then obtain b where "splitAt pat cs = Some (b, after)"
      using Cons.prems by (auto split: if_splits)
    then show ?thesis using Cons.IH by fastforce
  qed
qed

function unescapeLinks :: "jsstring \<Rightarrow> jsstring" where
  "unescapeLinks [] = []"
| "unescapeLinks (c # cs) =
     (if startsWith (c # cs) [backslash, 91] then
        (case splitAt [backslash, 93, 40] (drop 2 (c # cs)) of
           None \<Rightarrow> c # unescapeLinks cs
         | Some (label, after) \<Rightarrow>
             (case splitAt [41] after of
                None \<Rightarrow> c # unescapeLinks cs
              | Some (target, rest) \<Rightarrow> 91 # label @ [93, 40] @ target @ 41 # unescapeLinks rest))
      else c # unescapeLinks cs)"
  by pat_completeness auto
termination
proof (relation "measure length")
  show "wf (measure length)" by simp
next
  fix c :: nat and cs :: jsstring
  show "(cs, c # cs) \<in> measure length" by simp
next
  fix c :: nat and cs :: jsstring
  show "(cs, c # cs) \<in> measure length" by simp
next
  fix c :: nat and cs label after target rest :: jsstring and x y
  assume "startsWith (c # cs) [backslash, 91]"
    and 1: "splitAt [backslash, 93, 40] (drop 2 (c # cs)) = Some x" and x: "(label, after) = x"
    and 2: "splitAt [41] after = Some y" and y: "(target, rest) = y"
  have "length after \<le> length (drop 2 (c # cs))"
    using splitAt_shorter [of "[backslash, 93, 40]" "drop 2 (c # cs)" label after] 1 x by simp
  moreover have "length rest \<le> length after"
    using splitAt_shorter [of "[41]" after target rest] 2 y by simp
  ultimately show "(rest, c # cs) \<in> measure length" by simp
next
  fix c :: nat and cs :: jsstring
  show "(cs, c # cs) \<in> measure length" by simp
qed

definition postPass :: "jsstring \<Rightarrow> jsstring" where
  "postPass markdown =
     removePipeLines (unescapeLinks (fenceClose (fenceOpen (collapseNewlines markdown))))"

text \<open>
  The fallback: \<open>textContent.replace(/\s+/g, ' ').trim()\<close>.
\<close>

function collapseSpace :: "jsstring \<Rightarrow> jsstring" where
  "collapseSpace [] = []"
| "collapseSpace (c # cs) =
     (if whiteSpace c then 32 # collapseSpace (dropWhile whiteSpace cs)
      else c # collapseSpace cs)"
  by pat_completeness auto
termination
proof (relation "measure length")
  show "wf (measure length)" by simp
next
  fix c :: nat and cs :: jsstring
  have "length (dropWhile whiteSpace cs) \<le> length cs" by (rule length_dropWhile_le)
  then show "(dropWhile whiteSpace cs, c # cs) \<in> measure length" by simp
next
  fix c :: nat and cs :: jsstring
  show "(cs, c # cs) \<in> measure length" by simp
qed

definition trim :: "jsstring \<Rightarrow> jsstring" where
  "trim s = rev (dropWhile whiteSpace (rev (dropWhile whiteSpace s)))"

text \<open>
  \<open>convertToMarkdown(html, options)\<close>. The Turndown service with its rules and the text
  extraction of JSDOM are libraries: \<open>turndown h\<close> is the Markdown the service returns for
  \<open>h\<close> or the message of the error it throws, \<open>bodyText h\<close> is \<open>body.textContent\<close> of the
  parsed \<open>h\<close> or the message of the error thrown while parsing.
\<close>

definition convertToMarkdown ::
  "(jsstring \<Rightarrow> string + jsstring) \<Rightarrow> (jsstring \<Rightarrow> string + jsstring) \<Rightarrow> jsstring \<Rightarrow> jsstring" where
  "convertToMarkdown turndown bodyText html =
     (let h = prePass html in
      case turndown h of
        Inr markdown \<Rightarrow> postPass markdown
      | Inl err \<Rightarrow>
          (case bodyText h of
             Inr textContent \<Rightarrow> trim (collapseSpace textContent)
           | Inl err2 \<Rightarrow> js ''Error converting content to markdown.''))"

text \<open>
  Concrete collaborators: a transform that throws, and the text JSDOM extracts from the
  paragraph \<open><p>a &#124; b</p>\<close>, in which the character reference is a pipe.
\<close>

definition brokenTransform :: "jsstring \<Rightarrow> string + jsstring" where
  "brokenTransform h = Inl ''Cannot read properties of undefined''"

definition plainTransform :: "jsstring \<Rightarrow> string + jsstring" where
  "plainTransform h = Inr (js ''a | b'')"

definition entityText :: "jsstring \<Rightarrow> string + jsstring" where
  "entityText h = (if h = js ''<p>a &#124; b</p>'' then Inr (js ''a | b'') else Inr [])"

section \<open>Properties\<close>

text \<open>
  C10. For a job whose status is completed and whose total differs from its processed
  count, the summary written by \<open>saveJobState\<close> and the summary returned by \<open>getJobStatus\<close>
  both report a total equal to the processed count; \<open>saveJobState\<close> also stores that total
  in the job.
\<close>

theorem completed_total_forced_to_processed:
  assumes "status j = Completed" and "total j \<noteq> processed j"
  shows "sum_total (rep_summary (snd (saveJobState j))) = processed j
       \<and> sum_processed (rep_summary (snd (saveJobState j))) = processed j
       \<and> total (fst (saveJobState j)) = processed j
       \<and> sum_total (rep_summary (getJobStatus j)) = processed j
       \<and> sum_processed (rep_summary (getJobStatus j)) = processed j"
  using assms by (simp add: saveJobState_def getJobStatus_def summaryOf_def Let_def)

theorem completed_total_forced_to_processed_witness:
  "status overcounted = Completed \<and> total overcounted = 2 \<and> processed overcounted = 1
   \<and> sum_total (rep_summary (snd (saveJobState overcounted))) = 1
   \<and> total (fst (saveJobState overcounted)) = 1
   \<and> sum_total (rep_summary (getJobStatus overcounted)) = 1"
  using completed_total_forced_to_processed [of overcounted]
  by (simp add: overcounted_def createJob_def)

subsection \<open>The worker group\<close>




























lemmas pib_eval = processInBatchesPure_def finishOrder_def collectedPure_def processInBatches_def
  collected_def pureBegin_def pureFinish_def raceDone_def allDone_def settle_def flat_def
  truthy_def List.map_filter_def




text \<open>
  When two tasks finish during the same wait, \<open>Promise.race\<close> hands over the first value
  only and both tasks have left \<open>pendingPromises\<close>: the second value is never collected.
\<close>

lemma worker_group_loses_results:
  "processInBatchesPure flaky together [1, 2, 3] 2 = [Val 1, Val 3]"
  by (simp add: pib_eval flaky_def together_def)

subsection \<open>processUrl: the retry policy\<close>

lemma cacheLookup_pageLoad [simp]: "cacheLookup cfg u (pageLoad v rc e w) = cacheLookup cfg u w"
  by (simp add: cacheLookup_def getCacheByKey_def pageLoad_def cachingDisabled_def
      isRedisEnabled_def modeIsNone_def redisMode_def)

lemma attempts_setCacheByKey [simp]: "attempts (snd (setCacheByKey key d b w)) = attempts w"
  by (simp add: setCacheByKey_def)


















subsection \<open>The cache switch\<close>

text \<open>
  C6, as the code has it. In cache mode \<open>none\<close>, \<open>initRedis\<close> turns the master switch on
  unless \<open>DISABLE_ALL_CACHING\<close> is exactly \<open>false\<close>. After it has run, with the variable
  unset or set to anything else every lookup misses and every store is refused; with the
  variable set to \<open>false\<close> lookups read the LRU cache and stores write it.
\<close>

theorem caching_in_mode_none:
  assumes "\<not> redisInitialized w" and "modeIsNone w"
  shows "cachingDisabled (initRedis loads probe w) = (DISABLE_ALL_CACHING (env w) \<noteq> Some ''false'')
       \<and> getCacheByKey key (initRedis loads probe w)
           = (if DISABLE_ALL_CACHING (env w) = Some ''false'' then resultsCache w key else None)
       \<and> setCacheByKey key d False (initRedis loads probe w)
           = (if DISABLE_ALL_CACHING (env w) = Some ''false''
              then (True, (initRedis loads probe w)\<lparr>resultsCache := (resultsCache w)(key \<mapsto> d)\<rparr>)
              else (False, initRedis loads probe w))"
  using assms
  by (simp add: initRedis_def fallBack_def cachingDisabled_def getCacheByKey_def setCacheByKey_def
      isRedisEnabled_def modeIsNone_def redisMode_def)

theorem caching_in_mode_none_witness:
  "\<not> redisInitialized noneMode \<and> modeIsNone noneMode
   \<and> getCacheByKey ''k'' (initRedis True True noneMode) = None
   \<and> \<not> redisInitialized noneModeLru \<and> modeIsNone noneModeLru
   \<and> getCacheByKey ''k'' (snd (setCacheByKey ''k'' somePage False (initRedis True True noneModeLru)))
       = Some somePage"
  using caching_in_mode_none [of noneMode True True "''k''" somePage]
    caching_in_mode_none [of noneModeLru True True "''k''" somePage]
  by (simp add: noneMode_def noneModeLru_def freshProcess_def modeIsNone_def redisMode_def
      orDefault_def getCacheByKey_def cachingDisabled_def isRedisEnabled_def initRedis_def fallBack_def)

text \<open>
  The claim as stated fails: with \<open>USE_REDIS=none\<close> and the switch unset, a store after
  start-up is refused and the following lookup misses.
\<close>

theorem lru_unused_counterexample:
  "modeIsNone noneMode \<and> DISABLE_ALL_CACHING (env noneMode) = None
   \<and> fst (setCacheByKey ''k'' somePage False (initRedis True True noneMode)) = False
   \<and> getCacheByKey ''k'' (snd (setCacheByKey ''k'' somePage False (initRedis True True noneMode))) = None"
  by (simp add: noneMode_def freshProcess_def modeIsNone_def redisMode_def orDefault_def
      getCacheByKey_def setCacheByKey_def cachingDisabled_def isRedisEnabled_def initRedis_def
      fallBack_def)

subsection \<open>The job driver\<close>

subsection \<open>Cutting the batches\<close>

lemma splitFrom_total:
  assumes "0 < n"
  shows "\<exists>bs. splitFrom n i us acc = Some bs \<and> concat bs = concat acc @ drop i us"
proof (induction "length us - i" arbitrary: i acc rule: less_induct)
  case less
  show ?case
  proof (cases "i < length us")
    case False
    then have "splitFrom n i us acc = Some acc" by (subst splitFrom.simps) simp
    then show ?thesis using False by simp
  next
    case True
    have "length us - (i + n) < length us - i" using True assms by arith
    then have "\<exists>bs. splitFrom n (i + n) us (acc @ [take n (drop i us)]) = Some bs
        \<and> concat bs = concat (acc @ [take n (drop i us)]) @ drop (i + n) us"
      by (rule less)
    then obtain bs where bs: "splitFrom n (i + n) us (acc @ [take n (drop i us)]) = Some bs"
      "concat bs = concat (acc @ [take n (drop i us)]) @ drop (i + n) us"
      by blast
    have "take n (drop i us) @ drop (i + n) us = drop i us"
      by (metis add.commute append_take_drop_id drop_drop)
    then have c: "concat bs = concat acc @ drop i us" using bs(2) by simp
    have "splitFrom n i us acc = Some bs"
      using True bs(1) by (subst splitFrom.simps) simp
    then show ?thesis using c by simp
  qed
qed

lemma splitFrom_covers:
  assumes "splitFrom n 0 us [] = Some bs" and "0 < n"
  shows "concat bs = us"
  using splitFrom_total [OF assms(2), of 0 us "[]"] assms(1) by simp

subsection \<open>The map of processed URLs\<close>







lemma jobInv_currentBatch: "jobInv P n j \<Longrightarrow> jobInv P n (j\<lparr>currentBatch := k\<rparr>)"
  by (simp add: jobInv_def)

lemma jobInv_cancelJob: "jobInv P n j \<Longrightarrow> jobInv P n (cancelJob j)"
  by (simp add: jobInv_def cancelJob_def)

lemma jobInv_store:
  assumes "P m" and "status j = Processing \<or> status j = Cancelled" and "total j = n"
  shows "jobInv P n (recount (j\<lparr>processedUrlsMap := m, results := map snd m\<rparr>))"
proof -
  have "length (filter success (map snd m)) + length (filter (\<lambda>r. \<not> success r) (map snd m))
        = length m"
    using sum_length_filter_compl [of success "map snd m"] by simp
  then show ?thesis using assms by (simp add: jobInv_def recount_def)
qed

lemma saveJobState_running:
  assumes "status j \<noteq> Completed"
  shows "fst (saveJobState j) = j \<and> rep_status (snd (saveJobState j)) = status j"
  using assms by (simp add: saveJobState_def)

lemma midRun_progress: "\<forall>e\<in>set (progressEvents j k). midRun e"
  by (auto simp: progressEvents_def midRun_def split: option.splits)

lemma batchStep_inv:
  assumes j1: "jobInv P n j1" and evs: "\<forall>e\<in>set evs. midRun e"
    and b: "\<And>m w lim. P m \<Longrightarrow> P (fst (snd (processInBatches jobBegin (jobFinish pu) sch b lim (m, w))))"
  shows "jobInv P n (fst (batchStep pu sch cs k b j1 w evs))
       \<and> (\<forall>e\<in>set (snd (snd (batchStep pu sch cs k b j1 w evs))). midRun e)"
proof -
  let ?out = "processInBatches jobBegin (jobFinish pu) sch b (maxConcurrent (config j1))
                 (processedUrlsMap j1, w)"
  let ?m = "fst (snd ?out)"
  let ?j2 = "if inBatch cs k then cancelJob j1 else j1"
  let ?j3 = "recount (?j2\<lparr>processedUrlsMap := ?m, results := map snd ?m\<rparr>)"
  let ?rep = "snd (saveJobState ?j3)"
  let ?evs1 = "evs @ [Persisted ?rep] @ progressEvents ?j3 k"
  let ?j5 = "if afterSave cs k then cancelJob ?j3 else ?j3"
  have "P (processedUrlsMap j1)" using j1 by (simp add: jobInv_def)
  then have m: "P ?m" by (rule b)
  have st2: "status ?j2 = Processing \<or> status ?j2 = Cancelled"
    using j1 by (simp add: jobInv_def cancelJob_def)
  have t2: "total ?j2 = n" using j1 by (simp add: jobInv_def cancelJob_def)
  have j3: "jobInv P n ?j3" using jobInv_store [of P ?m ?j2 n] m st2 t2 by blast
  have nc: "status ?j3 \<noteq> Completed" using j3 by (auto simp: jobInv_def)
  have sv: "fst (saveJobState ?j3) = ?j3" and rs: "rep_status ?rep = status ?j3"
    using saveJobState_running [OF nc] by simp_all
  have "midRun (Persisted ?rep)" using rs j3 by (simp add: midRun_def jobInv_def)
  then have e1: "\<forall>e\<in>set ?evs1. midRun e"
    using evs midRun_progress [of ?j3 k] by auto
  have j5: "jobInv P n ?j5" using j3 jobInv_cancelJob [OF j3] by simp
  have eq: "batchStep pu sch cs k b j1 w evs = (?j5, snd (snd ?out), ?evs1)"
    unfolding batchStep_def Let_def split_beta sv ..
  show ?thesis unfolding eq using j5 e1 by simp
qed

lemma batchLoop_inv:
  assumes "jobInv P n j" and "\<forall>e\<in>set evs. midRun e"
    and bat: "\<And>b m w lim. b \<in> set bs \<Longrightarrow> P m
                \<Longrightarrow> P (fst (snd (processInBatches jobBegin (jobFinish pu) sch b lim (m, w))))"
  shows "jobInv P n (fst (batchLoop pu sch cs k bs j w evs))
       \<and> (\<forall>e\<in>set (snd (snd (batchLoop pu sch cs k bs j w evs))). midRun e)"
  using assms(1,2,3)
proof (induction bs arbitrary: k j w evs)
  case Nil
  then show ?case by simp
next
  case (Cons b bs)
  let ?j1 = "j\<lparr>currentBatch := k + 1\<rparr>"
  have j1: "jobInv P n ?j1" using Cons.prems(1) by (rule jobInv_currentBatch)
  show ?case
  proof (cases "status ?j1 = Cancelled")
    case True
    then show ?thesis using j1 Cons.prems(2) by simp
  next
    case False
    let ?st = "batchStep pu sch cs k b ?j1 w evs"
    have b: "\<And>m w lim. P m \<Longrightarrow> P (fst (snd (processInBatches jobBegin (jobFinish pu) sch b lim (m, w))))"
      using Cons.prems(3) [of b] by simp
    have bs: "\<And>c m w lim. c \<in> set bs \<Longrightarrow> P m
                \<Longrightarrow> P (fst (snd (processInBatches jobBegin (jobFinish pu) sch c lim (m, w))))"
      using Cons.prems(3) by simp
    have st: "jobInv P n (fst ?st)" "\<forall>e\<in>set (snd (snd ?st)). midRun e"
      using batchStep_inv [of P n ?j1 evs pu sch b cs k w, OF j1 Cons.prems(2) b] by simp_all
    have step: "batchLoop pu sch cs k (b # bs) j w evs
                = batchLoop pu sch cs (k + 1) bs (fst ?st) (fst (snd ?st)) (snd (snd ?st))"
      using False by (simp add: split_beta Let_def)
    show ?thesis unfolding step by (rule Cons.IH [OF st bs])
  qed
qed






lemma recount_counts:
  "processed (recount j) = length (processedUrlsMap j)
   \<and> succeeded (recount j) + failed (recount j) = length (processedUrlsMap j)
   \<and> processedUrlsMap (recount j) = processedUrlsMap j
   \<and> results (recount j) = results j \<and> status (recount j) = status j"
  using sum_length_filter_compl [of success "map snd (processedUrlsMap j)"]
  by (simp add: recount_def)

lemma saveJobState_completed:
  assumes "status j = Completed" and "processed j = length (processedUrlsMap j)"
    and "succeeded j + failed j = length (processedUrlsMap j)"
  shows "total (fst (saveJobState j)) = length (processedUrlsMap j)
       \<and> processed (fst (saveJobState j)) = length (processedUrlsMap j)
       \<and> succeeded (fst (saveJobState j)) + failed (fst (saveJobState j)) = length (processedUrlsMap j)
       \<and> processedUrlsMap (fst (saveJobState j)) = processedUrlsMap j
       \<and> results (fst (saveJobState j)) = results j
       \<and> status (fst (saveJobState j)) = Completed
       \<and> snd (saveJobState j) = \<lparr>rep_status = Completed, rep_summary = summaryOf (fst (saveJobState j)),
             rep_results = results j, rep_error = jobError j\<rparr>"
  using assms by (simp add: saveJobState_def Let_def)

lemma fold_addSkipped_status: "status (fold addSkipped xs j) = status j"
  by (induction xs arbitrary: j) (simp_all add: addSkipped_def)

lemma summaryOf_cancelJob: "summaryOf (cancelJob j) = summaryOf j"
  by (simp add: summaryOf_def cancelJob_def)

lemma finalize_counts:
  fixes us cs j evs
  defines "j' \<equiv> fst (finalize us cs j evs)"
  shows "total j' = length (processedUrlsMap j') \<and> processed j' = length (processedUrlsMap j')
       \<and> succeeded j' + failed j' = length (processedUrlsMap j')
       \<and> (status j' = Completed \<or> status j' = Cancelled)
       \<and> (\<exists>rep. snd (finalize us cs j evs) = evs @ [Persisted rep] @ finalEvents j'
              \<and> rep_status rep = Completed \<and> rep_summary rep = summaryOf j')"
proof -
  let ?j1 = "j\<lparr>status := Completed\<rparr>"
  let ?j2 = "if succeeded ?j1 + failed ?j1 \<noteq> total ?j1
             then fold addSkipped (missingUrls us ?j1) ?j1 else ?j1"
  let ?j3 = "recount ?j2"
  let ?j4 = "fst (saveJobState ?j3)"
  let ?rep = "snd (saveJobState ?j3)"
  let ?j5 = "if late cs then cancelJob ?j4 else ?j4"
  have eq: "finalize us cs j evs = (?j5, evs @ [Persisted ?rep] @ finalEvents ?j5)"
    unfolding finalize_def Let_def split_beta ..
  have s2: "status ?j2 = Completed" by (simp add: fold_addSkipped_status)
  have s3: "status ?j3 = Completed" using s2 recount_counts [of ?j2] by simp
  have c3: "processed ?j3 = length (processedUrlsMap ?j3)"
    "succeeded ?j3 + failed ?j3 = length (processedUrlsMap ?j3)"
    using recount_counts [of ?j2] by simp_all
  note sv = saveJobState_completed [OF s3 c3]
  have j4: "total ?j4 = length (processedUrlsMap ?j4)" "processed ?j4 = length (processedUrlsMap ?j4)"
    "succeeded ?j4 + failed ?j4 = length (processedUrlsMap ?j4)" "status ?j4 = Completed"
    using sv by simp_all
  have rep: "rep_status ?rep = Completed" "rep_summary ?rep = summaryOf ?j4"
    using sv by simp_all
  have j5: "total ?j5 = length (processedUrlsMap ?j5)" "processed ?j5 = length (processedUrlsMap ?j5)"
    "succeeded ?j5 + failed ?j5 = length (processedUrlsMap ?j5)"
    "status ?j5 = Completed \<or> status ?j5 = Cancelled"
    using j4 by (simp_all add: cancelJob_def)
  have rep5: "rep_summary ?rep = summaryOf ?j5"
    using rep(2) by (simp add: summaryOf_cancelJob)
  have "j' = ?j5" by (simp add: j'_def eq)
  moreover have "snd (finalize us cs j evs) = evs @ [Persisted ?rep] @ finalEvents ?j5"
    by (simp add: eq)
  ultimately show ?thesis using j5 rep(1) rep5 by auto
qed



lemma prepareJob_fail:
  assumes "enumerateUrls fetch cfg = Inl msg"
  shows "prepareJob fetch cs (createJob cfg) = Some (Inl msg)"
  using assms by (simp add: prepareJob_def createJob_def)

lemma prepareJob_empty:
  assumes "enumerateUrls fetch cfg = Inr []"
  shows "prepareJob fetch cs (createJob cfg) = Some (Inl ''No valid URLs found'')"
  using assms by (simp add: prepareJob_def createJob_def)

lemma prepareJob_ok:
  assumes "enumerateUrls fetch cfg = Inr us" and "us \<noteq> []" and "0 < batchSize cfg"
  shows "\<exists>j1. prepareJob fetch cs (createJob cfg) = Some (Inr (us, j1))
       \<and> concat (batches j1) = us \<and> total j1 = length us \<and> processedUrlsMap j1 = []
       \<and> results j1 = [] \<and> processed j1 = 0 \<and> succeeded j1 = 0 \<and> failed j1 = 0
       \<and> (status j1 = Processing \<or> status j1 = Cancelled)"
proof -
  obtain bs where bs: "splitFrom (batchSize cfg) 0 us [] = Some bs" "concat bs = us"
    using splitFrom_total [OF assms(3), of 0 us "[]"] by auto
  let ?j0 = "(createJob cfg)\<lparr>status := Processing\<rparr>"
  let ?j1 = "if truthyStr (sitemapUrl (config ?j0)) \<and> early cs then cancelJob ?j0 else ?j0"
  let ?j2 = "?j1\<lparr>total := length us, results := [], processedUrlsMap := [], batches := bs\<rparr>"
  have c: "batchSize (config ?j1) = batchSize cfg" by (simp add: createJob_def cancelJob_def)
  have "prepareJob fetch cs (createJob cfg) = Some (Inr (us, ?j2))"
    unfolding prepareJob_def Let_def using assms(1,2) bs(1) c by (simp add: createJob_def)
  moreover have "concat (batches ?j2) = us \<and> total ?j2 = length us \<and> processedUrlsMap ?j2 = []
       \<and> results ?j2 = [] \<and> processed ?j2 = 0 \<and> succeeded ?j2 = 0 \<and> failed ?j2 = 0
       \<and> (status ?j2 = Processing \<or> status ?j2 = Cancelled)"
    using bs(2) by (simp add: createJob_def cancelJob_def)
  ultimately show ?thesis by blast
qed

lemma failJob_createJob:
  "failJob msg ((createJob cfg)\<lparr>status := Processing\<rparr>)
   = ((createJob cfg)\<lparr>status := Failed, jobError := Some msg\<rparr>,
      [Persisted \<lparr>rep_status = Failed,
         rep_summary = \<lparr>sum_total = 0, sum_processed = 0, sum_successful = 0, sum_failed = 0,
                        sum_currentBatch = 0, sum_totalBatches = 0\<rparr>,
         rep_results = [], rep_error = Some msg\<rparr>])"
  by (simp add: failJob_def saveJobState_def createJob_def summaryOf_def)

lemma processJob_ok_eq:
  assumes "prepareJob fetch cs j = Some (Inr (us, j1))"
  shows "processJob pu fetch sch cs j w
         = Some (fst (finalize us cs (fst (batchLoop pu sch cs 0 (batches j1) j1 w []))
                        (snd (snd (batchLoop pu sch cs 0 (batches j1) j1 w [])))),
                 snd (finalize us cs (fst (batchLoop pu sch cs 0 (batches j1) j1 w []))
                        (snd (snd (batchLoop pu sch cs 0 (batches j1) j1 w [])))),
                 fst (snd (batchLoop pu sch cs 0 (batches j1) j1 w [])))"
  using assms by (simp add: processJob_def split_beta Let_def)

lemma processJob_fail_eq:
  assumes "prepareJob fetch cs (createJob cfg) = Some (Inl msg)"
  shows "processJob pu fetch sch cs (createJob cfg) w
         = Some ((createJob cfg)\<lparr>status := Failed, jobError := Some msg\<rparr>,
                 [Persisted \<lparr>rep_status = Failed,
                    rep_summary = \<lparr>sum_total = 0, sum_processed = 0, sum_successful = 0,
                       sum_failed = 0, sum_currentBatch = 0, sum_totalBatches = 0\<rparr>,
                    rep_results = [], rep_error = Some msg\<rparr>], w)"
  using assms by (simp add: processJob_def failJob_createJob)

lemma closure_of_counts:
  assumes "total j = length (processedUrlsMap j)" and "processed j = length (processedUrlsMap j)"
    and "succeeded j + failed j = length (processedUrlsMap j)"
  shows "countClosure (summaryOf j) \<and> sum_total (summaryOf j) = length (processedUrlsMap j)
       \<and> countClosure (rep_summary (getJobStatus j))
       \<and> sum_total (rep_summary (getJobStatus j)) = length (processedUrlsMap j)"
  using assms by (simp add: countClosure_def summaryOf_def getJobStatus_def Let_def)

lemma closedRun_failed:
  "closedRun ((createJob cfg)\<lparr>status := Failed, jobError := Some msg\<rparr>)
     [Persisted \<lparr>rep_status = Failed,
        rep_summary = \<lparr>sum_total = 0, sum_processed = 0, sum_successful = 0,
           sum_failed = 0, sum_currentBatch = 0, sum_totalBatches = 0\<rparr>,
        rep_results = [], rep_error = Some msg\<rparr>]"
  by (simp add: closedRun_def createJob_def countClosure_def getJobStatus_def summaryOf_def)

lemma finalEvents_cases:
  assumes "e \<in> set (finalEvents j)"
  shows "\<exists>ok bad. e = FinalWebhook (status j) (summaryOf j) ok bad"
  using assms by (auto simp: finalEvents_def split: option.splits if_splits)

lemma closedRun_finalize:
  assumes mid: "\<forall>e\<in>set evs. midRun e"
  shows "closedRun (fst (finalize us cs j evs)) (snd (finalize us cs j evs))"
proof -
  let ?j' = "fst (finalize us cs j evs)"
  let ?evs' = "snd (finalize us cs j evs)"
  have c: "total ?j' = length (processedUrlsMap ?j')" "processed ?j' = length (processedUrlsMap ?j')"
    "succeeded ?j' + failed ?j' = length (processedUrlsMap ?j')"
    "status ?j' = Completed \<or> status ?j' = Cancelled"
    using finalize_counts [of us cs j evs] by simp_all
  obtain rep where rep: "?evs' = evs @ [Persisted rep] @ finalEvents ?j'"
    "rep_status rep = Completed" "rep_summary rep = summaryOf ?j'"
    using finalize_counts [of us cs j evs] by blast
  note cl = closure_of_counts [OF c(1,2,3)]
  have p: "countClosure (rep_summary r) \<and> sum_total (rep_summary r) = length (processedUrlsMap ?j')"
    if "Persisted r \<in> set ?evs'" and "rep_status r = Completed \<or> rep_status r = Failed" for r
  proof -
    have "Persisted r \<in> set evs \<or> r = rep \<or> Persisted r \<in> set (finalEvents ?j')"
      using that(1) rep(1) by auto
    moreover have "Persisted r \<notin> set evs"
    proof
      assume "Persisted r \<in> set evs"
      then have "midRun (Persisted r)" using mid by blast
      then show False using that(2) by (auto simp: midRun_def)
    qed
    moreover have "Persisted r \<notin> set (finalEvents ?j')"
      using finalEvents_cases [of "Persisted r" ?j'] by auto
    ultimately have "r = rep" by blast
    then show ?thesis using rep(3) cl by simp
  qed
  have f: "countClosure s \<and> sum_total s = length (processedUrlsMap ?j')"
    if "FinalWebhook st s ok bad \<in> set ?evs'" for st s ok bad
  proof -
    have "FinalWebhook st s ok bad \<in> set evs \<or> FinalWebhook st s ok bad \<in> set (finalEvents ?j')"
      using that rep(1) by auto
    moreover have "FinalWebhook st s ok bad \<notin> set evs"
    proof
      assume "FinalWebhook st s ok bad \<in> set evs"
      then have "midRun (FinalWebhook st s ok bad)" using mid by blast
      then show False by (simp add: midRun_def)
    qed
    ultimately have "s = summaryOf ?j'"
      using finalEvents_cases [of "FinalWebhook st s ok bad" ?j'] by auto
    then show ?thesis using cl by simp
  qed
  have p1: "\<forall>r. Persisted r \<in> set ?evs' \<and> (rep_status r = Completed \<or> rep_status r = Failed)
         \<longrightarrow> countClosure (rep_summary r)
             \<and> sum_total (rep_summary r) = length (processedUrlsMap ?j')"
    using p by blast
  have f1: "\<forall>st s ok bad. FinalWebhook st s ok bad \<in> set ?evs'
         \<longrightarrow> countClosure s \<and> sum_total s = length (processedUrlsMap ?j')"
    using f by blast
  have s1: "status ?j' = Completed \<or> status ?j' = Failed \<or> status ?j' = Cancelled"
    using c(4) by blast
  have g1: "countClosure (rep_summary (getJobStatus ?j'))"
    and g2: "length (processedUrlsMap ?j') = sum_total (rep_summary (getJobStatus ?j'))"
    using cl by simp_all
  show ?thesis
    unfolding closedRun_def by (intro conjI s1 g1 g2 p1 f1)
qed

lemma trivial_jobInv:
  assumes "processedUrlsMap j1 = []" and "results j1 = []" and "processed j1 = 0"
    and "succeeded j1 = 0" and "failed j1 = 0" and "status j1 = Processing \<or> status j1 = Cancelled"
    and "P []"
  shows "jobInv P (total j1) j1"
  using assms by (simp add: jobInv_def)

lemma processJob_closedRun:
  assumes "0 < batchSize cfg"
  shows "\<exists>j' evs w'. processJob pu fetch sch cs (createJob cfg) w = Some (j', evs, w')
       \<and> closedRun j' evs"
proof (cases "enumerateUrls fetch cfg")
  case (Inl msg)
  show ?thesis
    using processJob_fail_eq [where fetch = fetch and cs = cs and cfg = cfg and msg = msg
        and pu = pu and sch = sch and w = w] prepareJob_fail [OF Inl, where cs = cs]
      closedRun_failed [where cfg = cfg and msg = msg]
    by simp
next
  case (Inr us)
  show ?thesis
  proof (cases "us = []")
    case True
    have "prepareJob fetch cs (createJob cfg) = Some (Inl ''No valid URLs found'')"
      using prepareJob_empty [where fetch = fetch and cfg = cfg and cs = cs] Inr True by simp
    then show ?thesis
      using processJob_fail_eq [where fetch = fetch and cs = cs and cfg = cfg
          and msg = "''No valid URLs found''" and pu = pu and sch = sch and w = w]
        closedRun_failed [where cfg = cfg and msg = "''No valid URLs found''"]
      by simp
  next
    case False
    obtain j1 where j1: "prepareJob fetch cs (createJob cfg) = Some (Inr (us, j1))"
      "processedUrlsMap j1 = []" "results j1 = []" "processed j1 = 0" "succeeded j1 = 0"
      "failed j1 = 0" "status j1 = Processing \<or> status j1 = Cancelled"
      using prepareJob_ok [OF Inr False assms, where cs = cs] by blast
    let ?L = "batchLoop pu sch cs 0 (batches j1) j1 w []"
    have inv: "jobInv (\<lambda>m. True) (total j1) j1"
      using trivial_jobInv [of j1 "\<lambda>m. True"] j1 by simp
    have mid: "\<forall>e\<in>set (snd (snd ?L)). midRun e"
      using batchLoop_inv [of "\<lambda>m. True" "total j1" j1 "[]" "batches j1" pu sch cs 0 w] inv
      by simp
    show ?thesis
      using processJob_ok_eq [OF j1(1), where pu = pu and sch = sch and w = w]
        closedRun_finalize [OF mid, where us = us and cs = cs and j = "fst ?L"]
      by simp
  qed
qed






text \<open>
  C4, as the code has it. Before the first batch \<open>job.total\<close> is the length of the list of
  URLs the source yields, repeated URLs counted as often as they occur; it is the number of
  distinct URLs exactly when the list has no repetition.
\<close>

theorem total_is_url_count:
  assumes "0 < batchSize cfg" and "enumerateUrls fetch cfg = Inr us" and "us \<noteq> []"
  shows "\<exists>j. prepareJob fetch cs (createJob cfg) = Some (Inr (us, j))
       \<and> total j = length us
       \<and> (total j = card (set us) \<longleftrightarrow> distinct us)"
proof -
  obtain j1 where j1: "prepareJob fetch cs (createJob cfg) = Some (Inr (us, j1))"
    "total j1 = length us"
    using prepareJob_ok [OF assms(2,3,1), where cs = cs] by blast
  have "(length us = card (set us)) = distinct us"
    using card_distinct [of us] distinct_card [of us] by auto
  then show ?thesis using j1 by auto
qed

lemma duplicate_run:
  "observed (processJob visitOk noSitemap oldestOnly noCancel (createJob sameTwice) [])
   = Some (Completed, [(Processing, 2, 1, 1, 0), (Completed, 1, 1, 1, 0)], [],
           [''https://a.test/1'', ''https://a.test/1''])"
  by code_simp

theorem total_is_url_count_witness:
  "0 < batchSize twoUrls
   \<and> enumerateUrls noSitemap twoUrls = Inr [''https://a.test/1'', ''https://a.test/2'']
   \<and> sourceCounts noSitemap noCancel twoUrls = Some (2, 2, 2)"
proof -
  have a: "0 < batchSize twoUrls" by (simp add: twoUrls_def)
  have b: "enumerateUrls noSitemap twoUrls = Inr [''https://a.test/1'', ''https://a.test/2'']"
    by (simp add: enumerateUrls_def twoUrls_def plainConfig_def)
  have c: "sourceCounts noSitemap noCancel twoUrls = Some (2, 2, 2)" by code_simp
  show ?thesis
    using total_is_url_count [OF a b, of noCancel] a b c by simp
qed

text \<open>
  The claim as stated fails: a list naming one URL twice gives a total of two for one
  distinct URL.
\<close>

theorem total_counts_duplicates_counterexample:
  "sourceCounts noSitemap noCancel sameTwice = Some (2, 2, 1)"
  by code_simp


text \<open>
  C1, as the code has it. For every job with a positive batch size \<open>processJob\<close> returns,
  with the status completed, failed or (after a late \<open>cancelJob\<close>) cancelled. The summary
  \<open>getJobStatus\<close> then reports satisfies total = processed = successful + failed, and the
  total is the number of entries of \<open>processedUrlsMap\<close>; so does every persisted report
  whose status is completed or failed, and the summary of every final webhook. (A report
  persisted during the run while the status is cancelled is not adjusted; see the
  counterexample.)
\<close>

theorem count_closure_when_done:
  assumes "0 < batchSize cfg"
  shows "\<exists>j' evs w'. processJob pu fetch sch cs (createJob cfg) w = Some (j', evs, w')
       \<and> (status j' = Completed \<or> status j' = Failed \<or> status j' = Cancelled)
       \<and> countClosure (rep_summary (getJobStatus j'))
       \<and> length (processedUrlsMap j') = sum_total (rep_summary (getJobStatus j'))
       \<and> (\<forall>rep. Persisted rep \<in> set evs \<and> (rep_status rep = Completed \<or> rep_status rep = Failed)
             \<longrightarrow> countClosure (rep_summary rep)
                 \<and> sum_total (rep_summary rep) = length (processedUrlsMap j'))
       \<and> (\<forall>st s ok bad. FinalWebhook st s ok bad \<in> set evs
             \<longrightarrow> countClosure s \<and> sum_total s = length (processedUrlsMap j'))"
  using processJob_closedRun [OF assms, of pu fetch sch cs w] unfolding closedRun_def .

lemma cancelled_run_observed:
  "observed (processJob visitOk noSitemap oldestOnly cancelFirst (createJob twoUrls) [])
   = Some (Completed, [(Cancelled, 2, 1, 1, 0), (Completed, 2, 2, 1, 1)], [Completed],
           [''https://a.test/1''])"
  by code_simp

theorem count_closure_when_done_witness:
  "0 < batchSize twoUrls
   \<and> observed (processJob visitOk noSitemap oldestOnly noCancel (createJob twoUrls) [])
       = Some (Completed, [(Processing, 2, 1, 1, 0), (Processing, 2, 2, 2, 0), (Completed, 2, 2, 2, 0)],
               [Completed], [''https://a.test/1'', ''https://a.test/2''])"
proof -
  have a: "0 < batchSize twoUrls" by (simp add: twoUrls_def)
  have b: "observed (processJob visitOk noSitemap oldestOnly noCancel (createJob twoUrls) [])
       = Some (Completed, [(Processing, 2, 1, 1, 0), (Processing, 2, 2, 2, 0), (Completed, 2, 2, 2, 0)],
               [Completed], [''https://a.test/1'', ''https://a.test/2''])"
    by code_simp
  show ?thesis
    using count_closure_when_done [OF a, of visitOk noSitemap oldestOnly noCancel "[]"] a b
    by simp
qed

text \<open>
  The claim as stated fails for the cancelled state: \<open>cancelJob\<close> during the first of two
  batches leaves a persisted report with status cancelled, total 2 and processed 1.
\<close>

theorem cancelled_report_counterexample:
  "map_option (\<lambda>(j, evs, calls). persistedReports evs)
     (processJob visitOk noSitemap oldestOnly cancelFirst (createJob twoUrls) [])
   = Some [(Cancelled, 2, 1, 1, 0), (Completed, 2, 2, 1, 1)]"
  by code_simp

text \<open>
  C2. \<open>cancelJob\<close> is called while the first of two batches is being processed. The
  second batch does not start (\<open>processUrl\<close> is called for the first URL only) and a last
  report is persisted, but the driver then overwrites the status: the job ends completed,
  the second URL is recorded as a failure, and the final webhook is sent with the status
  completed.
\<close>

theorem cancelled_job_ends_completed:
  "observed (processJob visitOk noSitemap oldestOnly cancelFirst (createJob twoUrls) [])
   = Some (Completed, [(Cancelled, 2, 1, 1, 0), (Completed, 2, 2, 1, 1)], [Completed],
           [''https://a.test/1''])"
  by (rule cancelled_run_observed)

end
